theory Spec2Isabelle
  imports Main "HOL-Library.AList"
begin

section \<open>Data model of the editor-side client\<close>

text \<open>
  The client is the TypeScript class \<open>MorphLanguageClient\<close> together with the class
  \<open>Agent\<close>. Objects are records, string unions are datatypes, every \<open>throw\<close> is a value
  of type \<open>error\<close> carrying the message of the source, and every mutation is explicit
  state passing.
\<close>

text \<open>\<open>type AgentStatus = 'running' | 'done' | 'error' | 'accepted' | 'rejected'\<close>\<close>

datatype AgentStatus = Running | Done | Error | Accepted | Rejected

text \<open>
  \<open>vscode.Position\<close> and \<open>vscode.Range\<close>. A range arriving in a notification is a plain
  JSON object, kept as it came; \<open>new vscode.Range(l1, c1, l2, c2)\<close> orders its two
  end points (\<open>new_Range\<close>).
\<close>

datatype Position = Position (line: nat) (character: nat)

datatype Range = RangeOf (start: Position) (end_pos: Position)

definition isBefore :: "Position \<Rightarrow> Position \<Rightarrow> bool" where
  "isBefore p q = (line p < line q \<or> (line p = line q \<and> character p < character q))"

definition new_Range :: "nat \<Rightarrow> nat \<Rightarrow> nat \<Rightarrow> nat \<Rightarrow> Range" where
  "new_Range l1 c1 l2 c2 =
     (if isBefore (Position l1 c1) (Position l2 c2)
      then RangeOf (Position l1 c1) (Position l2 c2)
      else RangeOf (Position l2 c2) (Position l1 c1))"

text \<open>Every \<open>throw new Error(msg)\<close> of the source is \<open>Err msg\<close>.\<close>

datatype error = Err string

abbreviation client_not_running :: error where
  "client_not_running \<equiv> Err ''client not running, please wait...''"

abbreviation agent_not_found :: error where
  "agent_not_found \<equiv> Err ''agent not found''"

abbreviation no_callback_set :: error where
  "no_callback_set \<equiv> Err ''no callback set''"

text \<open>
  \<open>interface RunAgentParams\<close>, \<open>RunChatParams\<close> and \<open>RunAgentSyncResult\<close>; a
  \<open>RunAgentResult\<close> is its \<open>id\<close>. A \<open>TextDocumentIdentifier\<close> is its \<open>uri\<close>. Agent ids
  are integers.
\<close>

record RunAgentParams =
  task :: string
  position :: Position
  textDocument :: string

record RunChatParams =
  chat_message :: string
  chat_messages :: "(string \<times> string) list"
  chat_position :: "Position option"
  chat_textDocument :: "string option"

record RunAgentSyncResult =
  sync_id :: int
  sync_text :: string

text \<open>
  \<open>interface RunAgentProgress\<close>. The fields \<open>log\<close>, \<open>cursor\<close> and \<open>ranges\<close> are optional
  in the source. The field \<open>status\<close> is declared required, but \<open>handleProgress\<close> tests
  \<open>if (params.status)\<close> before reading it, so a payload without it is modelled too
  (\<open>None\<close>); each of the five status strings is truthy. An empty \<open>ranges\<close> array is
  truthy as well: \<open>Some []\<close> is a present field.
\<close>

record RunAgentProgress =
  params_id :: int
  params_textDocument :: string
  params_log :: "(string \<times> string) option"
  params_cursor :: "Position option"
  params_ranges :: "Range list option"
  params_status :: "AgentStatus option"

text \<open>
  The editor window, as far as the client touches it: the visible editors, each with the
  uri, version and lines of its document and, per decoration type, the ranges last given
  to \<open>setDecorations\<close>. A decoration type is a handle; \<open>createTextEditorDecorationType\<close>
  returns a fresh one.
\<close>

record TextDocument =
  uri :: string
  version :: nat
  lines :: "string list"

record TextEditor =
  document :: TextDocument
  decorations :: "nat \<Rightarrow> Range list"

definition setDecorations :: "TextEditor \<Rightarrow> nat \<Rightarrow> Range list \<Rightarrow> TextEditor" where
  "setDecorations e d rs = e\<lparr>decorations := (decorations e)(d := rs)\<rparr>"

text \<open>
  \<open>class Agent\<close>. \<open>onStatusChange\<close> holds the subscribers of the agent's emitter; the only
  subscriber the source ever adds is \<open>e => this.changeLensEmitter.fire()\<close>.
  \<open>statusChangeFired\<close> records the payload of every \<open>onStatusChangeEmitter.fire\<close>, oldest
  first.
\<close>

datatype listener = FireChangeLens

record Agent =
  agent_id :: int
  startPosition :: Position
  agent_textDocument :: string
  agent_status :: AgentStatus
  green :: nat
  agent_ranges :: "Range list"
  onStatusChange :: "listener list"
  statusChangeFired :: "AgentStatus list"

text \<open>
  The connection object of the language-client library: its state, the handlers given to
  \<open>onNotification\<close>, and the messages handed to \<open>sendNotification\<close> and \<open>sendRequest\<close>,
  oldest first. A chat callback is either the default of the source, which throws, or a
  function supplied by a caller of \<open>run_chat\<close>, identified by a number.
\<close>

datatype State = State_Stopped | State_Starting | State_Running

datatype chat_callback = DefaultCallback | Callback nat

datatype handler = Handler_morph_notify | Handler_chat chat_callback

datatype payload =
    IdPayload int
  | RunAgentPayload RunAgentParams
  | RunChatPayload RunChatParams
  | EmptyPayload

datatype message = Notification string payload | Request string payload

record LanguageClient =
  state :: State
  notificationHandlers :: "(string \<times> handler) list"
  sent :: "message list"

definition onNotification :: "string \<Rightarrow> handler \<Rightarrow> LanguageClient \<Rightarrow> LanguageClient" where
  "onNotification method h c =
     c\<lparr>notificationHandlers := AList.update method h (notificationHandlers c)\<rparr>"

definition sendNotification :: "string \<Rightarrow> payload \<Rightarrow> LanguageClient \<Rightarrow> LanguageClient" where
  "sendNotification method x c = c\<lparr>sent := sent c @ [Notification method x]\<rparr>"

definition sendRequest :: "string \<Rightarrow> payload \<Rightarrow> LanguageClient \<Rightarrow> LanguageClient" where
  "sendRequest method x c = c\<lparr>sent := sent c @ [Request method x]\<rparr>"

text \<open>
  \<open>class MorphLanguageClient\<close>, with the part of \<open>vscode.window\<close> it acts on. \<open>agents\<close> is
  the \<open>Map<number, Agent>\<close>: an association list in insertion order, where \<open>Map.set\<close> on
  a present key replaces the value in place and on an absent key appends
  (\<open>AList.update\<close>), and \<open>Map.get\<close> is \<open>map_of\<close>. \<open>changeLensFired\<close> counts the calls of
  \<open>changeLensEmitter.fire()\<close>.
\<close>

record MorphLanguageClient =
  client :: "LanguageClient option"
  agents :: "(int \<times> Agent) list"
  morphNotifyChatCallback :: chat_callback
  changeLensFired :: nat
  visibleTextEditors :: "TextEditor list"
  decorationTypes :: nat

section \<open>The agent session\<close>

text \<open>
  The constructor of \<open>Agent\<close>: status \<open>'running'\<close>, a fresh decoration type, a new
  emitter, no ranges.
\<close>

definition new_Agent ::
  "int \<Rightarrow> Position \<Rightarrow> string \<Rightarrow> MorphLanguageClient \<Rightarrow> Agent \<times> MorphLanguageClient" where
  "new_Agent i pos doc w =
     (\<lparr>agent_id = i, startPosition = pos, agent_textDocument = doc, agent_status = Running,
       green = decorationTypes w, agent_ranges = [], onStatusChange = [],
       statusChangeFired = []\<rparr>,
      w\<lparr>decorationTypes := Suc (decorationTypes w)\<rparr>)"

fun run_listener :: "listener \<Rightarrow> MorphLanguageClient \<Rightarrow> MorphLanguageClient" where
  "run_listener FireChangeLens w = w\<lparr>changeLensFired := Suc (changeLensFired w)\<rparr>"

text \<open>\<open>this.onStatusChangeEmitter.fire(s)\<close>: every subscriber runs, in order.\<close>

definition fire_onStatusChange ::
  "AgentStatus \<Rightarrow> Agent \<Rightarrow> MorphLanguageClient \<Rightarrow> Agent \<times> MorphLanguageClient" where
  "fire_onStatusChange s a w =
     (a\<lparr>statusChangeFired := statusChangeFired a @ [s]\<rparr>, fold run_listener (onStatusChange a) w)"

text \<open>The body of the loop over the editors showing the notification's document.\<close>

definition decorate :: "Agent \<Rightarrow> RunAgentProgress \<Rightarrow> TextEditor \<Rightarrow> TextEditor" where
  "decorate a p e =
     (if params_status p = Some Accepted \<or> params_status p = Some Rejected
      then setDecorations e (green a) []
      else case params_ranges p of
             Some rs \<Rightarrow>
               setDecorations e (green a)
                 (map (\<lambda>r. new_Range (line (start r)) (character (start r))
                                     (line (end_pos r)) (character (end_pos r))) rs)
           | None \<Rightarrow> e)"

text \<open>
  \<open>Agent.handleProgress\<close>. The agent is the object the method is called on; the result is
  that object after the call, with the client and window after the call.
\<close>

definition handleProgress ::
  "Agent \<Rightarrow> RunAgentProgress \<Rightarrow> MorphLanguageClient \<Rightarrow> Agent \<times> MorphLanguageClient" where
  "handleProgress a p w =
     (let (a1, w1) =
            (case params_status p of
               Some s \<Rightarrow>
                 if agent_status a \<noteq> s
                 then fire_onStatusChange s (a\<lparr>agent_status := s\<rparr>) w
                 else (a, w)
             | None \<Rightarrow> (a, w));
          a2 = (case params_ranges p of Some rs \<Rightarrow> a1\<lparr>agent_ranges := rs\<rparr> | None \<Rightarrow> a1);
          w2 = w1\<lparr>visibleTextEditors :=
                    map (\<lambda>e. if uri (document e) = params_textDocument p
                             then decorate a2 p e else e)
                        (visibleTextEditors w1)\<rparr>
      in (a2, w2))"

text \<open>A session receiving a sequence of notifications, one after the other.\<close>

fun handleProgress_all ::
  "Agent \<Rightarrow> RunAgentProgress list \<Rightarrow> MorphLanguageClient \<Rightarrow> Agent \<times> MorphLanguageClient" where
  "handleProgress_all a [] w = (a, w)"
| "handleProgress_all a (p # ps) w =
     (case handleProgress a p w of (a', w') \<Rightarrow> handleProgress_all a' ps w')"

section \<open>The client\<close>

text \<open>
  The constructor of \<open>MorphLanguageClient\<close>: no connection, an empty registry, the
  throwing chat callback. The window is what the editor shows at that moment.
\<close>

definition new_MorphLanguageClient :: "TextEditor list \<Rightarrow> MorphLanguageClient" where
  "new_MorphLanguageClient editors =
     \<lparr>client = None, agents = [], morphNotifyChatCallback = DefaultCallback,
      changeLensFired = 0, visibleTextEditors = editors, decorationTypes = 0\<rparr>"

text \<open>
  \<open>create_client\<close>. The loop \<open>while (!(await tcpPortUsed.check(port)))\<close> has no bound; the
  answers of the successive port checks are an input, and \<open>None\<close> is a client still
  waiting when they run out. A connection is built only after a check has answered yes;
  it starts, and then the handler of \<open>'morph/progress'\<close>, and no other, is registered.
  The run modelled is the one in which \<open>start\<close> succeeds. The listener given to
  \<open>onDidChangeState\<close> calls \<open>create_client\<close> again once the connection has stopped;
  here that is the environment applying \<open>state_changed\<close> and then \<open>create_client\<close>.
\<close>

fun wait_for_server :: "bool list \<Rightarrow> unit option" where
  "wait_for_server [] = None"
| "wait_for_server (used # rest) = (if \<not> used then wait_for_server rest else Some ())"

definition new_LanguageClient :: LanguageClient where
  "new_LanguageClient = \<lparr>state = State_Stopped, notificationHandlers = [], sent = []\<rparr>"

definition create_client :: "bool list \<Rightarrow> MorphLanguageClient \<Rightarrow> MorphLanguageClient option" where
  "create_client checks w =
     (if (case client w of Some c \<Rightarrow> state c \<noteq> State_Stopped | None \<Rightarrow> False)
      then Some w
      else case wait_for_server checks of
             None \<Rightarrow> None
           | Some _ \<Rightarrow>
               Some (w\<lparr>client :=
                        Some (onNotification ''morph/progress'' Handler_morph_notify
                               (new_LanguageClient\<lparr>state := State_Running\<rparr>))\<rparr>))"

text \<open>The library reporting a new state of the current connection.\<close>

definition state_changed :: "State \<Rightarrow> MorphLanguageClient \<Rightarrow> MorphLanguageClient" where
  "state_changed st w = w\<lparr>client := map_option (\<lambda>c. c\<lparr>state := st\<rparr>) (client w)\<rparr>"

text \<open>\<open>is_running\<close>: \<open>this.client && this.client.state == State.Running\<close>.\<close>

definition is_running :: "MorphLanguageClient \<Rightarrow> bool" where
  "is_running w = (case client w of None \<Rightarrow> False | Some c \<Rightarrow> state c = State_Running)"

text \<open>
  \<open>morph_notify\<close>, the handler of \<open>'morph/progress'\<close>. The agent is an object held by the
  registry and changed in place, so the registry afterwards holds the agent as
  \<open>handleProgress\<close> left it, under the same key and at the same place.
\<close>

definition morph_notify ::
  "MorphLanguageClient \<Rightarrow> RunAgentProgress \<Rightarrow> (error + unit) \<times> MorphLanguageClient" where
  "morph_notify w p =
     (if \<not> is_running w then (Inl client_not_running, w)
      else case map_of (agents w) (params_id p) of
             None \<Rightarrow> (Inl agent_not_found, w)
           | Some a \<Rightarrow>
               (case handleProgress a p w of
                  (a', w') \<Rightarrow>
                    (Inr (), w'\<lparr>agents := AList.update (params_id p) a' (agents w')\<rparr>)))"

text \<open>
  A JavaScript number holds an integer exactly when the integer is safe
  (\<open>Number.isSafeInteger\<close>: at most \<open>2^53 - 1\<close> in size). The template literal
  \<open>`${n}`\<close> of a safe integer \<open>n\<close> is its decimal numeral, with a minus sign when
  negative. Beyond that range the number is a rounded double, printed with the digits of
  the double and, from \<open>10^21\<close>, in exponent notation: there \<open>number_toString\<close> is not
  the template literal, and what is stated below about the text built from an id is
  stated for a safe id.
\<close>

definition MAX_SAFE_INTEGER :: int where
  "MAX_SAFE_INTEGER = 9007199254740991"

definition isSafeInteger :: "int \<Rightarrow> bool" where
  "isSafeInteger i = (- MAX_SAFE_INTEGER \<le> i \<and> i \<le> MAX_SAFE_INTEGER)"

definition digit_char :: "nat \<Rightarrow> char" where
  "digit_char d = char_of (48 + d)"

fun nat_toString :: "nat \<Rightarrow> string" where
  "nat_toString n =
     (if n < 10 then [digit_char n] else nat_toString (n div 10) @ [digit_char (n mod 10)])"

declare nat_toString.simps [simp del]

definition number_toString :: "int \<Rightarrow> string" where
  "number_toString i = (if i < 0 then CHR ''-'' # nat_toString (nat (- i)) else nat_toString (nat i))"

definition DEFAULT_PORT :: int where
  "DEFAULT_PORT = 7797"

text \<open>
  \<open>run_agent\<close>. The answer of the backend to the request is an input: \<open>Inl\<close> a rejected
  request, \<open>Inr\<close> the \<open>id\<close> of the \<open>RunAgentResult\<close>. The value returned to the caller is
  the string of the last line of the method.
\<close>

definition run_agent ::
  "MorphLanguageClient \<Rightarrow> RunAgentParams \<Rightarrow> error + int \<Rightarrow> (error + string) \<times> MorphLanguageClient" where
  "run_agent w params reply =
     (case client w of
        None \<Rightarrow>
          (Inl (Err (''waiting for a connection to rift-engine, please make sure the rift-engine is running on port ''
                     @ number_toString DEFAULT_PORT)), w)
      | Some c \<Rightarrow>
          (let w1 = w\<lparr>client := Some (sendRequest ''morph/run_agent'' (RunAgentPayload params) c)\<rparr>
           in case reply of
                Inl e \<Rightarrow> (Inl e, w1)
              | Inr i \<Rightarrow>
                  (case new_Agent i (position params) (textDocument params) w1 of
                     (agent, w2) \<Rightarrow>
                       (let agent' = agent\<lparr>onStatusChange := onStatusChange agent @ [FireChangeLens]\<rparr>;
                            w3 = w2\<lparr>agents := AList.update i agent' (agents w2)\<rparr>;
                            w4 = w3\<lparr>changeLensFired := Suc (changeLensFired w3)\<rparr>
                        in (Inr (''starting agent '' @ number_toString i @ ''...''), w4)))))"

text \<open>\<open>run_agent_sync\<close>: the same registration, no subscriber, no lens signal.\<close>

definition run_agent_sync ::
  "MorphLanguageClient \<Rightarrow> RunAgentParams \<Rightarrow> error + RunAgentSyncResult
     \<Rightarrow> (error + string) \<times> MorphLanguageClient" where
  "run_agent_sync w params reply =
     (case client w of
        None \<Rightarrow> (Inl (Err []), w)
      | Some c \<Rightarrow>
          (let w1 = w\<lparr>client := Some (sendRequest ''morph/run_agent_sync'' (RunAgentPayload params) c)\<rparr>
           in case reply of
                Inl e \<Rightarrow> (Inl e, w1)
              | Inr result \<Rightarrow>
                  (case new_Agent (sync_id result) (position params) (textDocument params) w1 of
                     (agent, w2) \<Rightarrow>
                       (Inr (sync_text result),
                        w2\<lparr>agents := AList.update (sync_id result) agent (agents w2)\<rparr>))))"

text \<open>A sequence of \<open>run_agent\<close> calls, each with the answer of the backend.\<close>

fun run_agents ::
  "MorphLanguageClient \<Rightarrow> (RunAgentParams \<times> (error + int)) list \<Rightarrow> MorphLanguageClient" where
  "run_agents w [] = w"
| "run_agents w ((params, reply) # calls) = run_agents (snd (run_agent w params reply)) calls"

text \<open>
  The commands \<open>rift.cancel\<close>, \<open>rift.accept\<close> and \<open>rift.reject\<close>:
  \<open>this.client?.sendNotification(method, { id })\<close>, nothing without a connection.
\<close>

definition rift_cancel :: "int \<Rightarrow> MorphLanguageClient \<Rightarrow> MorphLanguageClient" where
  "rift_cancel i w = w\<lparr>client := map_option (sendNotification ''morph/cancel'' (IdPayload i)) (client w)\<rparr>"

definition rift_accept :: "int \<Rightarrow> MorphLanguageClient \<Rightarrow> MorphLanguageClient" where
  "rift_accept i w = w\<lparr>client := map_option (sendNotification ''morph/accept'' (IdPayload i)) (client w)\<rparr>"

definition rift_reject :: "int \<Rightarrow> MorphLanguageClient \<Rightarrow> MorphLanguageClient" where
  "rift_reject i w = w\<lparr>client := map_option (sendNotification ''morph/reject'' (IdPayload i)) (client w)\<rparr>"

section \<open>Chat\<close>

text \<open>
  \<open>run_chat\<close> stores the caller's callback in \<open>morphNotifyChatCallback\<close> and registers it
  on the current connection for \<open>'morph/chat_progress'\<close>, then sends the request.
\<close>

definition run_chat ::
  "MorphLanguageClient \<Rightarrow> RunChatParams \<Rightarrow> nat \<Rightarrow> error + unit
     \<Rightarrow> (error + string) \<times> MorphLanguageClient" where
  "run_chat w params callback reply =
     (case client w of
        None \<Rightarrow> (Inl (Err []), w)
      | Some c \<Rightarrow>
          (let w1 = w\<lparr>morphNotifyChatCallback := Callback callback\<rparr>;
               c1 = onNotification ''morph/chat_progress''
                      (Handler_chat (morphNotifyChatCallback w1)) c;
               w2 = w1\<lparr>client := Some (sendRequest ''morph/run_chat'' (RunChatPayload params) c1)\<rparr>
           in case reply of
                Inl e \<Rightarrow> (Inl e, w2)
              | Inr _ \<Rightarrow> (Inr ''starting...'', w2)))"

text \<open>
  Calling a chat callback: the default of the source throws \<open>'no callback set'\<close>; a
  caller's function runs (\<open>Inr\<close> its number).
\<close>

fun call_chat_callback :: "chat_callback \<Rightarrow> error + nat" where
  "call_chat_callback DefaultCallback = Inl no_callback_set"
| "call_chat_callback (Callback k) = Inr k"

text \<open>
  A \<open>'morph/chat_progress'\<close> notification arriving on the current connection. The
  connection calls the handler registered for the method; when there is none (or no
  connection), no function of the client is called: \<open>None\<close>.
\<close>

definition chat_progress_arrives :: "MorphLanguageClient \<Rightarrow> (error + nat) option" where
  "chat_progress_arrives w =
     (case client w of
        None \<Rightarrow> None
      | Some c \<Rightarrow>
          (case map_of (notificationHandlers c) ''morph/chat_progress'' of
             Some (Handler_chat cb) \<Rightarrow> Some (call_chat_callback cb)
           | _ \<Rightarrow> None))"

section \<open>Code lenses\<close>

text \<open>
  \<open>document.lineAt(line).range\<close>: the range of the line without its line break; the
  editor throws for a line the document does not have.
\<close>

definition lineAt_range :: "TextDocument \<Rightarrow> nat \<Rightarrow> error + Range" where
  "lineAt_range d n =
     (if n < length (lines d) then Inr (new_Range n 0 n (length (lines d ! n)))
      else Inl (Err ''Illegal value for `line`''))"

record Command =
  title :: string
  command :: string
  tooltip :: string
  arguments :: "int list"

record AgentLens =
  lens_range :: Range
  lens_command :: Command
  lens_id :: int

text \<open>
  The two emoji of the titles are written as their UTF-8 bytes (U+2705 and U+274C).
\<close>

definition running_lens :: "Range \<Rightarrow> Agent \<Rightarrow> AgentLens" where
  "running_lens r agent =
     \<lparr>lens_range = r,
      lens_command = \<lparr>title = ''running'', command = ''rift.cancel'',
                      tooltip = ''click to stop this agent'', arguments = [agent_id agent]\<rparr>,
      lens_id = agent_id agent\<rparr>"

definition accept_lens :: "Range \<Rightarrow> Agent \<Rightarrow> AgentLens" where
  "accept_lens r agent =
     \<lparr>lens_range = r,
      lens_command = \<lparr>title = ''Accept '' @ [CHR 0xE2, CHR 0x9C, CHR 0x85] @ '' '',
                      command = ''rift.accept'',
                      tooltip = ''Accept the edits below'', arguments = [agent_id agent]\<rparr>,
      lens_id = agent_id agent\<rparr>"

definition reject_lens :: "Range \<Rightarrow> Agent \<Rightarrow> AgentLens" where
  "reject_lens r agent =
     \<lparr>lens_range = r,
      lens_command = \<lparr>title = '' Reject '' @ [CHR 0xE2, CHR 0x9D, CHR 0x8C],
                      command = ''rift.reject'',
                      tooltip = ''Reject the edits below and restore the original text'',
                      arguments = [agent_id agent]\<rparr>,
      lens_id = agent_id agent\<rparr>"

text \<open>
  \<open>provideCodeLenses\<close>: the loop over \<open>this.agents.values()\<close>, in insertion order, with
  the list \<open>items\<close> built so far.
\<close>

fun provideCodeLenses_loop ::
  "Agent list \<Rightarrow> TextDocument \<Rightarrow> AgentLens list \<Rightarrow> error + AgentLens list" where
  "provideCodeLenses_loop [] d items = Inr items"
| "provideCodeLenses_loop (agent # rest) d items =
     (if agent_textDocument agent = uri d
      then case lineAt_range d (line (startPosition agent)) of
             Inl e \<Rightarrow> Inl e
           | Inr r \<Rightarrow>
               if agent_status agent = Running
               then provideCodeLenses_loop rest d (items @ [running_lens r agent])
               else if agent_status agent = Done \<or> agent_status agent = Error
               then provideCodeLenses_loop rest d (items @ [accept_lens r agent, reject_lens r agent])
               else provideCodeLenses_loop rest d items
      else provideCodeLenses_loop rest d items)"

definition provideCodeLenses ::
  "MorphLanguageClient \<Rightarrow> TextDocument \<Rightarrow> error + AgentLens list" where
  "provideCodeLenses w d = provideCodeLenses_loop (map snd (agents w)) d []"

text \<open>A sequence of \<open>'morph/progress'\<close> notifications arriving, whatever each call raises.\<close>

fun morph_notify_all ::
  "MorphLanguageClient \<Rightarrow> RunAgentProgress list \<Rightarrow> MorphLanguageClient" where
  "morph_notify_all w [] = w"
| "morph_notify_all w (p # ps) = morph_notify_all (snd (morph_notify w p)) ps"

text \<open>
  What one pass of the loop of \<open>provideCodeLenses\<close> appends for an agent, given the range
  of its line.
\<close>

definition agent_lenses :: "Range \<Rightarrow> Agent \<Rightarrow> AgentLens list" where
  "agent_lenses r agent =
     (if agent_status agent = Running then [running_lens r agent]
      else if agent_status agent = Done \<or> agent_status agent = Error
      then [accept_lens r agent, reject_lens r agent]
      else [])"

text \<open>
  The lenses of one agent for a document: those of its status, on the range of its line,
  when the agent belongs to the document, and none otherwise.
\<close>

definition lenses_in :: "TextDocument \<Rightarrow> Agent \<Rightarrow> AgentLens list" where
  "lenses_in d agent =
     (if agent_textDocument agent = uri d
      then agent_lenses
             (new_Range (line (startPosition agent)) 0 (line (startPosition agent))
                (length (lines d ! line (startPosition agent))))
             agent
      else [])"

text \<open>
  The registry as the code builds it: no key twice, and every agent stored under its own
  id (\<open>this.agents.set(result.id, agent)\<close> with \<open>agent.id = result.id\<close>).
\<close>

definition registry_ok :: "MorphLanguageClient \<Rightarrow> bool" where
  "registry_ok w =
     (distinct (map fst (agents w)) \<and> (\<forall>(k, a) \<in> set (agents w). agent_id a = k))"

text \<open>What a lens offers: its command, the arguments of the command, and its range.\<close>

definition lens_action :: "AgentLens \<Rightarrow> string \<times> int list \<times> Range" where
  "lens_action l = (command (lens_command l), arguments (lens_command l), lens_range l)"

section \<open>A session of the client\<close>

text \<open>
  The scenario used for the concrete runs below: a six-line document \<open>a.py\<close> is visible,
  the backend is found at the second port check, and \<open>run_agent\<close> with the task
  \<open>fix bug\<close> at line 3 is answered with id 1.
\<close>

definition a_py :: TextDocument where
  "a_py = \<lparr>uri = ''a.py'', version = 1,
           lines = [''import os'', '''', ''def f(x):'', ''    return x'', '''', ''print(f(1))'']\<rparr>"

definition a_py_editor :: TextEditor where
  "a_py_editor = \<lparr>document = a_py, decorations = (\<lambda>d. [])\<rparr>"

definition connected :: MorphLanguageClient where
  "connected =
     (case create_client [False, True] (new_MorphLanguageClient [a_py_editor]) of
        Some w \<Rightarrow> w
      | None \<Rightarrow> new_MorphLanguageClient [a_py_editor])"

definition fix_bug :: RunAgentParams where
  "fix_bug = \<lparr>task = ''fix bug'', position = Position 3 0, textDocument = ''a.py''\<rparr>"

definition started :: MorphLanguageClient where
  "started = snd (run_agent connected fix_bug (Inr 1))"

definition progress :: "int \<Rightarrow> AgentStatus \<Rightarrow> Range list option \<Rightarrow> RunAgentProgress" where
  "progress i s rs =
     \<lparr>params_id = i, params_textDocument = ''a.py'', params_log = None, params_cursor = None,
      params_ranges = rs, params_status = Some s\<rparr>"

text \<open>The session of agent 1 as the registry holds it after that call, and a range.\<close>

definition session_1 :: Agent where
  "session_1 =
     (case agents started of
        (k, a) # rest \<Rightarrow> a
      | [] \<Rightarrow> fst (new_Agent 1 (Position 3 0) ''a.py'' connected))"

definition lines_3_5 :: Range where
  "lines_3_5 = RangeOf (Position 3 0) (Position 5 0)"

text \<open>A second \<open>run_agent\<close> at the same position, answered with id 2.\<close>

definition two_agents :: MorphLanguageClient where
  "two_agents = run_agents connected [(fix_bug, Inr 1), (fix_bug, Inr 2)]"

text \<open>
  An agent left behind by an edit: agent 2 was started on line 6 of a longer \<open>a.py\<close>,
  and the document now has six lines (0 to 5).
\<close>

definition fix_line_6 :: RunAgentParams where
  "fix_line_6 = \<lparr>task = ''fix bug'', position = Position 6 0, textDocument = ''a.py''\<rparr>"

definition stale_agent :: MorphLanguageClient where
  "stale_agent = run_agents connected [(fix_bug, Inr 1), (fix_line_6, Inr 2)]"

section \<open>Facts about one call of \<open>handleProgress\<close>\<close>

lemma run_listener_frame [simp]:
  "visibleTextEditors (run_listener l w) = visibleTextEditors w"
  "agents (run_listener l w) = agents w"
  "client (run_listener l w) = client w"
  by (cases l; simp)+

lemma fold_run_listener_frame [simp]:
  "visibleTextEditors (fold run_listener ls w) = visibleTextEditors w"
  "agents (fold run_listener ls w) = agents w"
  "client (fold run_listener ls w) = client w"
  by (induction ls arbitrary: w) simp_all

lemma handleProgress_status:
  "agent_status (fst (handleProgress a p w)) =
     (case params_status p of None \<Rightarrow> agent_status a | Some s \<Rightarrow> s)"
  by (simp add: handleProgress_def fire_onStatusChange_def Let_def split: option.splits)

lemma handleProgress_ranges:
  "agent_ranges (fst (handleProgress a p w)) =
     (case params_ranges p of None \<Rightarrow> agent_ranges a | Some rs \<Rightarrow> rs)"
  by (simp add: handleProgress_def fire_onStatusChange_def Let_def split: option.splits)

lemma handleProgress_fired:
  "statusChangeFired (fst (handleProgress a p w)) =
     statusChangeFired a @
       (case params_status p of
          None \<Rightarrow> []
        | Some s \<Rightarrow> if s \<noteq> agent_status a then [s] else [])"
  by (simp add: handleProgress_def fire_onStatusChange_def Let_def split: option.splits)

lemma handleProgress_green: "green (fst (handleProgress a p w)) = green a"
  by (simp add: handleProgress_def fire_onStatusChange_def Let_def split: option.splits)

lemma handleProgress_editors:
  "visibleTextEditors (snd (handleProgress a p w)) =
     map (\<lambda>e. if uri (document e) = params_textDocument p
              then decorate (fst (handleProgress a p w)) p e else e) (visibleTextEditors w)"
  by (simp add: handleProgress_def fire_onStatusChange_def Let_def split: option.splits)

lemma handleProgress_frame:
  "agents (snd (handleProgress a p w)) = agents w"
  "client (snd (handleProgress a p w)) = client w"
  by (simp_all add: handleProgress_def fire_onStatusChange_def Let_def split: option.splits)

section \<open>Status of a session\<close>

text \<open>
  C1 (as the code has it). \<open>handleProgress\<close> has no terminal state: whatever the status
  of the session, also \<open>accepted\<close> or \<open>rejected\<close>, a notification that carries a status
  leaves the session with that status. The status stays as it was exactly when the
  notification carries the same status or none.
\<close>

theorem handleProgress_takes_status:
  "agent_status (fst (handleProgress a p w)) =
     (case params_status p of None \<Rightarrow> agent_status a | Some s \<Rightarrow> s) \<and>
   (agent_status (fst (handleProgress a p w)) = agent_status a) =
     (params_status p = None \<or> params_status p = Some (agent_status a))"
proof
  show "agent_status (fst (handleProgress a p w)) =
     (case params_status p of None \<Rightarrow> agent_status a | Some s \<Rightarrow> s)"
    by (rule handleProgress_status)
  then show "(agent_status (fst (handleProgress a p w)) = agent_status a) =
     (params_status p = None \<or> params_status p = Some (agent_status a))"
    by (cases "params_status p") auto
qed

text \<open>
  C1 as stated fails: agent 1 goes \<open>running\<close>, \<open>done\<close>, \<open>accepted\<close>, and a later
  notification with status \<open>running\<close> makes it \<open>running\<close> again.
\<close>

theorem terminal_status_counterexample:
  "map_option agent_status
     (map_of (agents (morph_notify_all started
        [progress 1 Done (Some [RangeOf (Position 3 0) (Position 5 0)]),
         progress 1 Accepted None])) 1) = Some Accepted \<and>
   map_option agent_status
     (map_of (agents (morph_notify_all started
        [progress 1 Done (Some [RangeOf (Position 3 0) (Position 5 0)]),
         progress 1 Accepted None,
         progress 1 Running None])) 1) = Some Running"
  by code_simp

section \<open>Highlighted ranges\<close>

text \<open>
  C2 (as the code has it). A notification with status \<open>accepted\<close> or \<open>rejected\<close> empties
  the decoration of the session in every visible editor showing the document of the
  notification. The ranges stored in the session are not emptied: they are the ranges of
  the notification when it carries some, and the previous ones otherwise.
\<close>

theorem accepted_rejected_clears_decorations:
  assumes "params_status p = Some Accepted \<or> params_status p = Some Rejected"
  shows "agent_ranges (fst (handleProgress a p w)) =
           (case params_ranges p of None \<Rightarrow> agent_ranges a | Some rs \<Rightarrow> rs) \<and>
         (\<forall>e \<in> set (visibleTextEditors (snd (handleProgress a p w))).
            uri (document e) = params_textDocument p \<longrightarrow> decorations e (green a) = [])"
  using assms
  by (auto simp: handleProgress_ranges handleProgress_editors handleProgress_green
      decorate_def setDecorations_def)

theorem accepted_rejected_clears_decorations_witness:
  "(params_status (progress 1 Accepted None) = Some Accepted \<or>
    params_status (progress 1 Accepted None) = Some Rejected) \<and>
   agent_ranges (fst (handleProgress_all session_1 [progress 1 Done (Some [lines_3_5])] started))
     = [lines_3_5] \<and>
   map (\<lambda>e. (uri (document e), decorations e 0))
     (visibleTextEditors
        (snd (handleProgress_all session_1 [progress 1 Done (Some [lines_3_5])] started)))
     = [(''a.py'', [lines_3_5])] \<and>
   agent_ranges
     (fst (handleProgress
            (fst (handleProgress_all session_1 [progress 1 Done (Some [lines_3_5])] started))
            (progress 1 Accepted None)
            (snd (handleProgress_all session_1 [progress 1 Done (Some [lines_3_5])] started))))
     = [lines_3_5] \<and>
   map (\<lambda>e. (uri (document e), decorations e 0))
     (visibleTextEditors
        (snd (handleProgress
            (fst (handleProgress_all session_1 [progress 1 Done (Some [lines_3_5])] started))
            (progress 1 Accepted None)
            (snd (handleProgress_all session_1 [progress 1 Done (Some [lines_3_5])] started)))))
     = [(''a.py'', [])]"
proof -
  let ?A = "fst (handleProgress_all session_1 [progress 1 Done (Some [lines_3_5])] started)"
  let ?W = "snd (handleProgress_all session_1 [progress 1 Done (Some [lines_3_5])] started)"
  let ?eds = "visibleTextEditors (snd (handleProgress ?A (progress 1 Accepted None) ?W))"
  have h: "params_status (progress 1 Accepted None) = Some Accepted \<or>
           params_status (progress 1 Accepted None) = Some Rejected"
    by (simp add: progress_def)
  have r: "agent_ranges ?A = [lines_3_5]"
    by code_simp
  have g: "green ?A = 0"
    by code_simp
  have before: "map (\<lambda>e. (uri (document e), decorations e 0)) (visibleTextEditors ?W)
                  = [(''a.py'', [lines_3_5])]"
    by code_simp
  have d: "params_textDocument (progress 1 Accepted None) = ''a.py''"
          "params_ranges (progress 1 Accepted None) = None"
    by (simp_all add: progress_def)
  have uris: "map (\<lambda>e. uri (document e)) ?eds = [''a.py'']"
    by code_simp
  then obtain e where e: "?eds = [e]" "uri (document e) = ''a.py''"
    by auto
  have t: "agent_ranges (fst (handleProgress ?A (progress 1 Accepted None) ?W)) = [lines_3_5] \<and>
           (\<forall>e \<in> set ?eds. uri (document e) = ''a.py'' \<longrightarrow> decorations e 0 = [])"
    using accepted_rejected_clears_decorations [OF h, of ?A ?W] r g d by simp
  then have "decorations e 0 = []"
    using e by simp
  then have after: "map (\<lambda>e. (uri (document e), decorations e 0)) ?eds = [(''a.py'', [])]"
    using e by simp
  show ?thesis
    using h r before t after by blast
qed

text \<open>
  C2 as stated fails: after \<open>done\<close> with one range and then \<open>accepted\<close>, the session of
  agent 1 still holds that range.
\<close>

theorem accepted_keeps_ranges_counterexample:
  "map_option agent_ranges
     (map_of (agents (morph_notify_all started
        [progress 1 Done (Some [RangeOf (Position 3 0) (Position 5 0)]),
         progress 1 Accepted None])) 1) = Some [RangeOf (Position 3 0) (Position 5 0)]"
  by code_simp

text \<open>
  C4. A notification that carries \<open>ranges\<close> leaves the session with exactly those ranges,
  whatever it held before.
\<close>

theorem ranges_replaced_wholesale:
  "params_ranges p = Some rs \<Longrightarrow> agent_ranges (fst (handleProgress a p w)) = rs"
  by (simp add: handleProgress_ranges)

theorem ranges_replaced_wholesale_witness:
  "params_ranges (progress 1 Running (Some [RangeOf (Position 4 0) (Position 4 8)]))
     = Some [RangeOf (Position 4 0) (Position 4 8)] \<and>
   agent_ranges (fst (handleProgress session_1 (progress 1 Running (Some [lines_3_5])) started))
     = [lines_3_5] \<and>
   agent_ranges
     (fst (handleProgress
            (fst (handleProgress session_1 (progress 1 Running (Some [lines_3_5])) started))
            (progress 1 Running (Some [RangeOf (Position 4 0) (Position 4 8)]))
            (snd (handleProgress session_1 (progress 1 Running (Some [lines_3_5])) started))))
     = [RangeOf (Position 4 0) (Position 4 8)]"
proof -
  have h: "params_ranges (progress 1 Running (Some [RangeOf (Position 4 0) (Position 4 8)]))
             = Some [RangeOf (Position 4 0) (Position 4 8)]"
    by (simp add: progress_def)
  have h0: "params_ranges (progress 1 Running (Some [lines_3_5])) = Some [lines_3_5]"
    by (simp add: progress_def)
  show ?thesis
    using h ranges_replaced_wholesale [OF h]
    by (simp add: handleProgress_ranges h0)
qed

section \<open>The status-change signal\<close>

text \<open>
  C6. One call of \<open>handleProgress\<close> fires the session's signal once, with the new status,
  when the notification carries a status other than the current one, and not at all
  otherwise. Over a sequence of notifications the payloads fired are therefore the
  statuses carried, in order, with every status equal to its predecessor (the first one:
  to the status at the start) left out.
\<close>

theorem status_signal_once_per_change:
  "statusChangeFired (fst (handleProgress a p w)) =
     statusChangeFired a @
       (case params_status p of
          None \<Rightarrow> []
        | Some s \<Rightarrow> if s \<noteq> agent_status a then [s] else []) \<and>
   statusChangeFired (fst (handleProgress_all a ps w)) =
     statusChangeFired a @ tl (remdups_adj (agent_status a # List.map_filter params_status ps))"
proof
  show "statusChangeFired (fst (handleProgress a p w)) =
     statusChangeFired a @
       (case params_status p of
          None \<Rightarrow> []
        | Some s \<Rightarrow> if s \<noteq> agent_status a then [s] else [])"
    by (rule handleProgress_fired)
next
  show "statusChangeFired (fst (handleProgress_all a ps w)) =
     statusChangeFired a @ tl (remdups_adj (agent_status a # List.map_filter params_status ps))"
  proof (induction ps arbitrary: a w)
    case Nil
    show ?case by (simp add: List.map_filter_simps)
  next
    case (Cons q qs)
    obtain a' w' where step: "handleProgress a q w = (a', w')"
      by (cases "handleProgress a q w")
    have st: "agent_status a' = (case params_status q of None \<Rightarrow> agent_status a | Some s \<Rightarrow> s)"
      using handleProgress_status [of a q w] step by simp
    have fi: "statusChangeFired a' = statusChangeFired a @
       (case params_status q of
          None \<Rightarrow> []
        | Some s \<Rightarrow> if s \<noteq> agent_status a then [s] else [])"
      using handleProgress_fired [of a q w] step by simp
    have "statusChangeFired (fst (handleProgress_all a (q # qs) w)) =
          statusChangeFired a' @ tl (remdups_adj (agent_status a' # List.map_filter params_status qs))"
      using Cons.IH [of a' w'] step by simp
    then show ?case
      using st fi by (auto simp: List.map_filter_simps split: option.splits)
  qed
qed

section \<open>The registry\<close>

lemma set_update_subset: "set (AList.update k v al) \<subseteq> insert (k, v) (set al)"
  by (induction al) auto

lemma registry_ok_update:
  assumes "distinct (map fst al)" and "\<forall>(k, a) \<in> set al. agent_id a = k" and "agent_id v = i"
  shows "distinct (map fst (AList.update i v al)) \<and>
         (\<forall>(k, a) \<in> set (AList.update i v al). agent_id a = k)"
proof
  show "distinct (map fst (AList.update i v al))"
    using assms(1) by (rule distinct_update)
  show "\<forall>(k, a) \<in> set (AList.update i v al). agent_id a = k"
    using assms(2,3) set_update_subset [of i v al] by auto
qed

lemma registry_ok_new: "registry_ok (new_MorphLanguageClient eds)"
  by (simp add: registry_ok_def new_MorphLanguageClient_def)

lemma registry_ok_create_client:
  "registry_ok w \<Longrightarrow> create_client checks w = Some w' \<Longrightarrow> registry_ok w'"
  by (auto simp: registry_ok_def create_client_def split: if_splits option.splits)

lemma registry_ok_run_agent:
  assumes "registry_ok w"
  shows "registry_ok (snd (run_agent w params reply))"
proof (cases "client w")
  case None
  then show ?thesis using assms by (simp add: run_agent_def)
next
  case (Some c)
  show ?thesis
  proof (cases reply)
    case (Inl e)
    then show ?thesis using assms Some by (simp add: run_agent_def registry_ok_def)
  next
    case (Inr i)
    let ?agent = "(fst (new_Agent i (position params) (textDocument params) w))
                    \<lparr>onStatusChange := [FireChangeLens]\<rparr>"
    have "agent_id ?agent = i"
      by (simp add: new_Agent_def)
    then have "distinct (map fst (AList.update i ?agent (agents w))) \<and>
               (\<forall>(k, a) \<in> set (AList.update i ?agent (agents w)). agent_id a = k)"
      using assms registry_ok_update [of "agents w" ?agent i] by (simp add: registry_ok_def)
    then show ?thesis
      using Some Inr by (simp add: run_agent_def registry_ok_def new_Agent_def Let_def)
  qed
qed

lemma registry_ok_run_agent_sync:
  assumes "registry_ok w"
  shows "registry_ok (snd (run_agent_sync w params reply))"
proof (cases "client w")
  case None
  then show ?thesis using assms by (simp add: run_agent_sync_def)
next
  case (Some c)
  show ?thesis
  proof (cases reply)
    case (Inl e)
    then show ?thesis using assms Some by (simp add: run_agent_sync_def registry_ok_def)
  next
    case (Inr result)
    let ?agent = "fst (new_Agent (sync_id result) (position params) (textDocument params) w)"
    have "agent_id ?agent = sync_id result"
      by (simp add: new_Agent_def)
    then have "distinct (map fst (AList.update (sync_id result) ?agent (agents w))) \<and>
               (\<forall>(k, a) \<in> set (AList.update (sync_id result) ?agent (agents w)). agent_id a = k)"
      using assms registry_ok_update [of "agents w" ?agent "sync_id result"]
      by (simp add: registry_ok_def)
    then show ?thesis
      using Some Inr by (simp add: run_agent_sync_def registry_ok_def new_Agent_def Let_def)
  qed
qed

lemma registry_ok_run_agents:
  "registry_ok w \<Longrightarrow> registry_ok (run_agents w calls)"
  by (induction calls arbitrary: w) (auto simp: registry_ok_run_agent)

lemma handleProgress_id: "agent_id (fst (handleProgress a p w)) = agent_id a"
  by (simp add: handleProgress_def fire_onStatusChange_def Let_def split: option.splits)

lemma registry_ok_morph_notify:
  assumes "registry_ok w"
  shows "registry_ok (snd (morph_notify w p))"
proof (cases "is_running w")
  case False
  then show ?thesis using assms by (simp add: morph_notify_def)
next
  case True
  show ?thesis
  proof (cases "map_of (agents w) (params_id p)")
    case None
    then show ?thesis using assms True by (simp add: morph_notify_def)
  next
    case (Some a)
    then have "(params_id p, a) \<in> set (agents w)"
      by (rule map_of_SomeD)
    then have id: "agent_id (fst (handleProgress a p w)) = params_id p"
      using assms by (auto simp: registry_ok_def handleProgress_id)
    obtain a' w' where hp: "handleProgress a p w = (a', w')"
      by (cases "handleProgress a p w")
    have "agents w' = agents w"
      using handleProgress_frame(1) [of a p w] hp by simp
    then show ?thesis
      using assms True Some hp id registry_ok_update [of "agents w" a' "params_id p"]
      by (simp add: morph_notify_def registry_ok_def)
  qed
qed

lemma run_agent_distinct:
  "distinct (map fst (agents w)) \<Longrightarrow> distinct (map fst (agents (snd (run_agent w params reply))))"
  by (auto simp: run_agent_def new_Agent_def Let_def distinct_update split: option.splits sum.splits)

lemma run_agents_distinct:
  "distinct (map fst (agents w)) \<Longrightarrow> distinct (map fst (agents (run_agents w calls)))"
  by (induction calls arbitrary: w) (auto simp: run_agent_distinct)

text \<open>
  C5 (as the code has it). A \<open>run_agent\<close> call on a connected client that the backend
  answers with a safe integer id \<open>i\<close> returns the message \<open>starting agent i...\<close> to its caller (not the
  id itself), and leaves under the key \<open>i\<close> a new session with that id, status
  \<open>running\<close>, anchored at the position and document of the call, with no ranges; the
  entries under other keys are untouched. No key occurs twice in the registry after the
  call, nor after any sequence of calls, whatever ids the backend answers.
\<close>

theorem run_agent_registers:
  assumes "client w = Some c" and "distinct (map fst (agents w))" and "isSafeInteger i"
  shows "fst (run_agent w params (Inr i)) = Inr (''starting agent '' @ number_toString i @ ''...'') \<and>
         (\<exists>a. map_of (agents (snd (run_agent w params (Inr i)))) i = Some a \<and>
              agent_id a = i \<and> agent_status a = Running \<and>
              startPosition a = position params \<and>
              agent_textDocument a = textDocument params \<and> agent_ranges a = []) \<and>
         (\<forall>j. j \<noteq> i \<longrightarrow>
              map_of (agents (snd (run_agent w params (Inr i)))) j = map_of (agents w) j) \<and>
         distinct (map fst (agents (snd (run_agent w params (Inr i))))) \<and>
         distinct (map fst (agents (run_agents w calls)))"
  using assms
  by (simp add: run_agent_def new_Agent_def Let_def distinct_update update_conv' run_agents_distinct)

theorem run_agent_registers_witness:
  "map_option state (client connected) = Some State_Running \<and>
   distinct (map fst (agents connected)) \<and>
   isSafeInteger 1 \<and>
   fst (run_agent connected fix_bug (Inr 1)) = Inr ''starting agent 1...'' \<and>
   map_option (\<lambda>a. (agent_id a, agent_status a, startPosition a, agent_textDocument a, agent_ranges a))
     (map_of (agents (snd (run_agent connected fix_bug (Inr 1)))) 1)
     = Some (1, Running, Position 3 0, ''a.py'', []) \<and>
   distinct (map fst (agents (run_agents connected
       [(fix_bug, Inr 1), (fix_bug, Inr 2), (fix_bug, Inl (Err ''busy'')), (fix_bug, Inr 1)]))) \<and>
   map fst (agents (run_agents connected
       [(fix_bug, Inr 1), (fix_bug, Inr 2), (fix_bug, Inl (Err ''busy'')), (fix_bug, Inr 1)])) = [1, 2]"
proof -
  let ?calls = "[(fix_bug, Inr 1), (fix_bug, Inr 2), (fix_bug, Inl (Err ''busy'')), (fix_bug, Inr 1)]"
  have s: "map_option state (client connected) = Some State_Running"
    by code_simp
  then obtain c where c: "client connected = Some c"
    by auto
  have d: "distinct (map fst (agents connected))"
    by code_simp
  have n: "number_toString 1 = ''1''"
    by code_simp
  have k: "map fst (agents (run_agents connected ?calls)) = [1, 2]"
    by code_simp
  have p: "position fix_bug = Position 3 0" "textDocument fix_bug = ''a.py''"
    by (simp_all add: fix_bug_def)
  have i: "isSafeInteger 1"
    by (simp add: isSafeInteger_def MAX_SAFE_INTEGER_def)
  note T = run_agent_registers [OF c d i, of fix_bug ?calls]
  have t: "fst (run_agent connected fix_bug (Inr 1)) = Inr ''starting agent 1...''"
    using T [THEN conjunct1] n by simp
  have e: "\<exists>a. map_of (agents (snd (run_agent connected fix_bug (Inr 1)))) 1 = Some a \<and>
              agent_id a = 1 \<and> agent_status a = Running \<and>
              startPosition a = Position 3 0 \<and>
              agent_textDocument a = ''a.py'' \<and> agent_ranges a = []"
    using T [THEN conjunct2, THEN conjunct1] p by simp
  have dd: "distinct (map fst (agents (run_agents connected ?calls)))"
    by (rule T [THEN conjunct2, THEN conjunct2, THEN conjunct2, THEN conjunct2])
  from e have m: "map_option (\<lambda>a. (agent_id a, agent_status a, startPosition a, agent_textDocument a, agent_ranges a))
     (map_of (agents (snd (run_agent connected fix_bug (Inr 1)))) 1)
     = Some (1, Running, Position 3 0, ''a.py'', [])"
    by auto
  from s d i t m dd k show ?thesis
    by (intro conjI)
qed

text \<open>
  C5 as stated fails in its last part: for the answer \<open>{id: 7}\<close> the caller gets the
  message, which is not the id.
\<close>

theorem run_agent_result_counterexample:
  "fst (run_agent connected fix_bug (Inr 7)) = Inr ''starting agent 7...'' \<and>
   fst (run_agent connected fix_bug (Inr 7)) \<noteq> Inr (number_toString 7)"
  by code_simp

section \<open>Routing of progress notifications\<close>

text \<open>
  C3 (as the code has it). A progress notification whose id is not a key of the registry
  makes \<open>morph_notify\<close> raise, and leaves the client, the registry included, as it was.
  The error is \<open>agent not found\<close> when the connection is running; otherwise the first
  check of the handler raises \<open>client not running, please wait...\<close> instead.
\<close>

theorem unknown_id_raises:
  assumes "params_id p \<notin> fst ` set (agents w)"
  shows "morph_notify w p =
           (Inl (if is_running w then agent_not_found else client_not_running), w)"
proof -
  have "map_of (agents w) (params_id p) = None"
    using assms by (simp add: map_of_eq_None_iff)
  then show ?thesis
    by (simp add: morph_notify_def)
qed

theorem unknown_id_raises_witness:
  "params_id (progress 42 Running None) \<notin> fst ` set (agents connected) \<and>
   is_running connected \<and>
   morph_notify connected (progress 42 Running None) = (Inl agent_not_found, connected)"
proof -
  have h: "params_id (progress 42 Running None) \<notin> fst ` set (agents connected)"
    by code_simp
  have r: "is_running connected"
    by code_simp
  show ?thesis
    using h r unknown_id_raises [OF h] by simp
qed

text \<open>
  C3 as stated fails: on a connection that has stopped, a notification for the unknown
  id 42 raises the not-running error, not the routing error.
\<close>

theorem unknown_id_not_running_counterexample:
  "params_id (progress 42 Running None) \<notin> fst ` set (agents (state_changed State_Stopped connected)) \<and>
   fst (morph_notify (state_changed State_Stopped connected) (progress 42 Running None))
     = Inl client_not_running \<and>
   fst (morph_notify (state_changed State_Stopped connected) (progress 42 Running None))
     \<noteq> Inl agent_not_found"
  by code_simp

text \<open>
  C10. When a connection exists and is not running, \<open>morph_notify\<close> raises
  \<open>client not running, please wait...\<close> whatever the registry holds (the registry is not
  consulted), and the client, with its registry and every session, is as it was.
\<close>

theorem not_running_raises_first:
  assumes "client w = Some c" and "state c \<noteq> State_Running"
  shows "morph_notify (w\<lparr>agents := registry\<rparr>) p = (Inl client_not_running, w\<lparr>agents := registry\<rparr>) \<and>
         morph_notify w p = (Inl client_not_running, w)"
  using assms by (simp add: morph_notify_def is_running_def)

theorem not_running_raises_first_witness:
  "map_option state (client (state_changed State_Stopped started)) = Some State_Stopped \<and>
   map_option agent_status (map_of (agents (state_changed State_Stopped started)) 1) = Some Running \<and>
   morph_notify (state_changed State_Stopped started) (progress 1 Done (Some [lines_3_5]))
     = (Inl client_not_running, state_changed State_Stopped started)"
proof -
  have s: "map_option state (client (state_changed State_Stopped started)) = Some State_Stopped"
    by code_simp
  then obtain c where c: "client (state_changed State_Stopped started) = Some c"
      "state c \<noteq> State_Running"
    by auto
  have a: "map_option agent_status (map_of (agents (state_changed State_Stopped started)) 1) = Some Running"
    by code_simp
  show ?thesis
    using s a not_running_raises_first [OF c] by simp
qed

section \<open>Commands\<close>

lemma sendNotification_frame:
  "state (sendNotification m x c) = state c"
  "notificationHandlers (sendNotification m x c) = notificationHandlers c"
  "sent (sendNotification m x c) = sent c @ [Notification m x]"
  by (simp_all add: sendNotification_def)

text \<open>
  C9. Each of the commands cancel, accept and reject leaves the registry (so every
  session, its status and its ranges), the editors, the lens signal, the chat callback,
  and the state and handlers of the connection as they were. Its only effect is one
  notification \<open>morph/cancel\<close>, \<open>morph/accept\<close> or \<open>morph/reject\<close> carrying the id, handed
  to the connection when there is one.
\<close>

theorem commands_only_notify:
  "(agents (rift_cancel i w) = agents w \<and>
    agents (rift_accept i w) = agents w \<and>
    agents (rift_reject i w) = agents w) \<and>
   (visibleTextEditors (rift_cancel i w) = visibleTextEditors w \<and>
    visibleTextEditors (rift_accept i w) = visibleTextEditors w \<and>
    visibleTextEditors (rift_reject i w) = visibleTextEditors w) \<and>
   (changeLensFired (rift_cancel i w) = changeLensFired w \<and>
    changeLensFired (rift_accept i w) = changeLensFired w \<and>
    changeLensFired (rift_reject i w) = changeLensFired w) \<and>
   (morphNotifyChatCallback (rift_cancel i w) = morphNotifyChatCallback w \<and>
    morphNotifyChatCallback (rift_accept i w) = morphNotifyChatCallback w \<and>
    morphNotifyChatCallback (rift_reject i w) = morphNotifyChatCallback w) \<and>
   (map_option state (client (rift_cancel i w)) = map_option state (client w) \<and>
    map_option state (client (rift_accept i w)) = map_option state (client w) \<and>
    map_option state (client (rift_reject i w)) = map_option state (client w)) \<and>
   (map_option notificationHandlers (client (rift_cancel i w))
      = map_option notificationHandlers (client w) \<and>
    map_option notificationHandlers (client (rift_accept i w))
      = map_option notificationHandlers (client w) \<and>
    map_option notificationHandlers (client (rift_reject i w))
      = map_option notificationHandlers (client w)) \<and>
   (map_option sent (client (rift_cancel i w))
      = map_option (\<lambda>c. sent c @ [Notification ''morph/cancel'' (IdPayload i)]) (client w) \<and>
    map_option sent (client (rift_accept i w))
      = map_option (\<lambda>c. sent c @ [Notification ''morph/accept'' (IdPayload i)]) (client w) \<and>
    map_option sent (client (rift_reject i w))
      = map_option (\<lambda>c. sent c @ [Notification ''morph/reject'' (IdPayload i)]) (client w))"
  by (cases "client w") (simp_all add: rift_cancel_def rift_accept_def rift_reject_def sendNotification_frame)

section \<open>Chat progress\<close>

text \<open>
  C7, evaluated on the code. On a client that has connected and on which \<open>run_chat\<close> has
  not been called, no handler is registered for \<open>morph/chat_progress\<close>: an arriving chat
  notification calls no function of the client, and the default callback, which would
  throw \<open>no callback set\<close>, is not reached. Once \<open>run_chat\<close> has been called the caller's
  callback is the one registered.
\<close>

theorem chat_progress_before_run_chat:
  "chat_progress_arrives connected = None \<and>
   call_chat_callback (morphNotifyChatCallback connected) = Inl no_callback_set \<and>
   chat_progress_arrives
     (snd (run_chat connected
        \<lparr>chat_message = ''hello'', chat_messages = [], chat_position = None,
         chat_textDocument = None\<rparr> 5 (Inr ()))) = Some (Inr 5)"
  by code_simp

section \<open>Lenses of a document\<close>

lemma provideCodeLenses_loop_ok:
  assumes "\<forall>a \<in> set as. agent_textDocument a = uri d \<longrightarrow> line (startPosition a) < length (lines d)"
  shows "provideCodeLenses_loop as d items = Inr (items @ concat (map (lenses_in d) as))"
  using assms
proof (induction as arbitrary: items)
  case Nil
  show ?case by simp
next
  case (Cons a as)
  then show ?case
    by (simp add: lenses_in_def agent_lenses_def lineAt_range_def)
qed

lemma provideCodeLenses_loop_raises:
  assumes "\<exists>a \<in> set as. agent_textDocument a = uri d \<and> \<not> line (startPosition a) < length (lines d)"
  shows "provideCodeLenses_loop as d items = Inl (Err ''Illegal value for `line`'')"
  using assms
proof (induction as arbitrary: items)
  case Nil
  then show ?case by simp
next
  case (Cons a as)
  show ?case
  proof (cases "agent_textDocument a = uri d \<and> \<not> line (startPosition a) < length (lines d)")
    case True
    then show ?thesis
      by (simp add: lineAt_range_def)
  next
    case False
    then have "\<exists>b \<in> set as. agent_textDocument b = uri d \<and> \<not> line (startPosition b) < length (lines d)"
      using Cons.prems by auto
    then have "\<And>items. provideCodeLenses_loop as d items = Inl (Err ''Illegal value for `line`'')"
      by (rule Cons.IH)
    then show ?thesis
      using False by (auto simp: lineAt_range_def)
  qed
qed

lemma lenses_in_id: "l \<in> set (lenses_in d a) \<Longrightarrow> lens_id l = agent_id a"
  by (auto simp: lenses_in_def agent_lenses_def running_lens_def accept_lens_def reject_lens_def
      split: if_splits)

lemma new_Range_start_line: "line (start (new_Range n c n c')) = n"
  by (simp add: new_Range_def)

lemma lenses_in_line:
  "l \<in> set (lenses_in d a) \<Longrightarrow> line (start (lens_range l)) = line (startPosition a)"
  by (auto simp: lenses_in_def agent_lenses_def running_lens_def accept_lens_def reject_lens_def
      new_Range_start_line split: if_splits)

lemma filter_line_lenses_in:
  "filter (\<lambda>l. line (start (lens_range l)) = n) (lenses_in d a) =
     (if line (startPosition a) = n then lenses_in d a else [])"
  by (auto simp: filter_id_conv filter_empty_conv dest: lenses_in_line)

lemma filter_line_concat:
  "filter (\<lambda>l. line (start (lens_range l)) = n) (concat (map (lenses_in d) as)) =
     concat (map (lenses_in d) (filter (\<lambda>a. line (startPosition a) = n) as))"
  by (induction as) (simp_all add: filter_line_lenses_in)

lemma lens_actions_of_agent:
  "map lens_action (lenses_in d a) =
     (if agent_textDocument a = uri d
      then (if agent_status a = Running
            then [(''rift.cancel'', [agent_id a],
                   new_Range (line (startPosition a)) 0 (line (startPosition a))
                     (length (lines d ! line (startPosition a))))]
            else if agent_status a = Done \<or> agent_status a = Error
            then [(''rift.accept'', [agent_id a],
                   new_Range (line (startPosition a)) 0 (line (startPosition a))
                     (length (lines d ! line (startPosition a)))),
                  (''rift.reject'', [agent_id a],
                   new_Range (line (startPosition a)) 0 (line (startPosition a))
                     (length (lines d ! line (startPosition a))))]
            else [])
      else [])"
  by (simp add: lenses_in_def agent_lenses_def lens_action_def running_lens_def accept_lens_def
      reject_lens_def)

text \<open>
  C8 (as the code has it). \<open>provideCodeLenses\<close> raises, and gives no lens at all, when
  some agent of the document is anchored on a line the document does not have.
  Otherwise it returns exactly the lenses of the agents, agent after agent in the order
  of the registry, and nothing else. The lenses of an agent of the document lie on the
  range of its anchoring line and are one \<open>rift.cancel\<close> when it is \<open>running\<close>, one
  \<open>rift.accept\<close> followed by one \<open>rift.reject\<close> when it is \<open>done\<close> or \<open>error\<close>, and none
  when it is \<open>accepted\<close> or \<open>rejected\<close>, each with the id of the agent as argument; an
  agent of another document has none. The lenses on a line are therefore those of the
  agents anchored on it, one agent after the other; they are those of a single agent,
  as the claim has them, when that agent is the only one of the registry anchored on
  the line.
\<close>

theorem provideCodeLenses_actions:
  "provideCodeLenses w d =
     (if \<forall>a \<in> set (map snd (agents w)).
            agent_textDocument a = uri d \<longrightarrow> line (startPosition a) < length (lines d)
      then Inr (concat (map (lenses_in d) (map snd (agents w))))
      else Inl (Err ''Illegal value for `line`'')) \<and>
   map lens_action (lenses_in d a) =
     (if agent_textDocument a = uri d
      then (if agent_status a = Running
            then [(''rift.cancel'', [agent_id a],
                   new_Range (line (startPosition a)) 0 (line (startPosition a))
                     (length (lines d ! line (startPosition a))))]
            else if agent_status a = Done \<or> agent_status a = Error
            then [(''rift.accept'', [agent_id a],
                   new_Range (line (startPosition a)) 0 (line (startPosition a))
                     (length (lines d ! line (startPosition a)))),
                  (''rift.reject'', [agent_id a],
                   new_Range (line (startPosition a)) 0 (line (startPosition a))
                     (length (lines d ! line (startPosition a))))]
            else [])
      else []) \<and>
   (\<forall>l \<in> set (lenses_in d a).
      lens_id l = agent_id a \<and> line (start (lens_range l)) = line (startPosition a)) \<and>
   filter (\<lambda>l. line (start (lens_range l)) = n) (concat (map (lenses_in d) (map snd (agents w)))) =
     concat (map (lenses_in d) (filter (\<lambda>a. line (startPosition a) = n) (map snd (agents w)))) \<and>
   (filter (\<lambda>b. line (startPosition b) = n) (map snd (agents w)) = [a] \<longrightarrow>
      filter (\<lambda>l. line (start (lens_range l)) = n) (concat (map (lenses_in d) (map snd (agents w))))
        = lenses_in d a)"
proof (intro conjI)
  show "provideCodeLenses w d =
     (if \<forall>a \<in> set (map snd (agents w)).
            agent_textDocument a = uri d \<longrightarrow> line (startPosition a) < length (lines d)
      then Inr (concat (map (lenses_in d) (map snd (agents w))))
      else Inl (Err ''Illegal value for `line`''))"
  proof (cases "\<forall>a \<in> set (map snd (agents w)).
            agent_textDocument a = uri d \<longrightarrow> line (startPosition a) < length (lines d)")
    case True
    have "provideCodeLenses w d = Inr (concat (map (lenses_in d) (map snd (agents w))))"
      using provideCodeLenses_loop_ok [OF True, of "[]"]
      by (simp only: provideCodeLenses_def append_Nil)
    then show ?thesis
      by (simp only: if_P [OF True])
  next
    case False
    then have "\<exists>a \<in> set (map snd (agents w)).
        agent_textDocument a = uri d \<and> \<not> line (startPosition a) < length (lines d)"
      by blast
    then have "provideCodeLenses_loop (map snd (agents w)) d [] = Inl (Err ''Illegal value for `line`'')"
      by (rule provideCodeLenses_loop_raises)
    then have "provideCodeLenses w d = Inl (Err ''Illegal value for `line`'')"
      by (simp only: provideCodeLenses_def)
    then show ?thesis
      by (simp only: if_not_P [OF False])
  qed
next
  show "map lens_action (lenses_in d a) =
     (if agent_textDocument a = uri d
      then (if agent_status a = Running
            then [(''rift.cancel'', [agent_id a],
                   new_Range (line (startPosition a)) 0 (line (startPosition a))
                     (length (lines d ! line (startPosition a))))]
            else if agent_status a = Done \<or> agent_status a = Error
            then [(''rift.accept'', [agent_id a],
                   new_Range (line (startPosition a)) 0 (line (startPosition a))
                     (length (lines d ! line (startPosition a)))),
                  (''rift.reject'', [agent_id a],
                   new_Range (line (startPosition a)) 0 (line (startPosition a))
                     (length (lines d ! line (startPosition a))))]
            else [])
      else [])"
    by (rule lens_actions_of_agent)
next
  show "\<forall>l \<in> set (lenses_in d a).
      lens_id l = agent_id a \<and> line (start (lens_range l)) = line (startPosition a)"
    using lenses_in_id [of _ d a] lenses_in_line [of _ d a] by blast
next
  show "filter (\<lambda>l. line (start (lens_range l)) = n) (concat (map (lenses_in d) (map snd (agents w)))) =
     concat (map (lenses_in d) (filter (\<lambda>a. line (startPosition a) = n) (map snd (agents w))))"
    by (rule filter_line_concat)
next
  show "filter (\<lambda>b. line (startPosition b) = n) (map snd (agents w)) = [a] \<longrightarrow>
      filter (\<lambda>l. line (start (lens_range l)) = n) (concat (map (lenses_in d) (map snd (agents w))))
        = lenses_in d a"
    by (simp only: filter_line_concat) simp
qed

theorem provideCodeLenses_actions_witness:
  "map (\<lambda>(k, a). (k, agent_status a, agent_textDocument a, line (startPosition a)))
     (agents (morph_notify_all two_agents [progress 2 Done None]))
     = [(1, Running, ''a.py'', 3), (2, Done, ''a.py'', 3)] \<and>
   (case provideCodeLenses (morph_notify_all two_agents [progress 2 Done None]) a_py of
      Inr items \<Rightarrow> map lens_action items
    | Inl e \<Rightarrow> [])
     = [(''rift.cancel'', [1], RangeOf (Position 3 0) (Position 3 12)),
        (''rift.accept'', [2], RangeOf (Position 3 0) (Position 3 12)),
        (''rift.reject'', [2], RangeOf (Position 3 0) (Position 3 12))] \<and>
   map (\<lambda>(k, a). (k, agent_status a, agent_textDocument a, line (startPosition a)))
     (agents stale_agent)
     = [(1, Running, ''a.py'', 3), (2, Running, ''a.py'', 6)] \<and>
   length (lines a_py) = 6 \<and>
   provideCodeLenses stale_agent a_py = Inl (Err ''Illegal value for `line`'') \<and>
   filter (\<lambda>b. line (startPosition b) = 3) (map snd (agents started)) = [session_1] \<and>
   map lens_action
     (filter (\<lambda>l. line (start (lens_range l)) = 3)
        (concat (map (lenses_in a_py) (map snd (agents started)))))
     = [(''rift.cancel'', [1], RangeOf (Position 3 0) (Position 3 12))]"
proof -
  let ?W = "morph_notify_all two_agents [progress 2 Done None]"
  have reg: "map (\<lambda>(k, a). (k, agent_status a, agent_textDocument a, line (startPosition a)))
     (agents ?W) = [(1, Running, ''a.py'', 3), (2, Done, ''a.py'', 3)]"
    by code_simp
  have valid: "\<forall>a \<in> set (map snd (agents ?W)).
      agent_textDocument a = uri a_py \<longrightarrow> line (startPosition a) < length (lines a_py)"
    by code_simp
  have items: "provideCodeLenses ?W a_py = Inr (concat (map (lenses_in a_py) (map snd (agents ?W))))"
    using provideCodeLenses_actions [of ?W a_py, THEN conjunct1]
    by (simp only: if_P [OF valid])
  have actions: "map lens_action (concat (map (lenses_in a_py) (map snd (agents ?W))))
     = [(''rift.cancel'', [1], RangeOf (Position 3 0) (Position 3 12)),
        (''rift.accept'', [2], RangeOf (Position 3 0) (Position 3 12)),
        (''rift.reject'', [2], RangeOf (Position 3 0) (Position 3 12))]"
    by code_simp
  have first: "(case provideCodeLenses ?W a_py of
      Inr items \<Rightarrow> map lens_action items
    | Inl e \<Rightarrow> [])
     = [(''rift.cancel'', [1], RangeOf (Position 3 0) (Position 3 12)),
        (''rift.accept'', [2], RangeOf (Position 3 0) (Position 3 12)),
        (''rift.reject'', [2], RangeOf (Position 3 0) (Position 3 12))]"
    by (simp only: items sum.case actions)
  have reg': "map (\<lambda>(k, a). (k, agent_status a, agent_textDocument a, line (startPosition a)))
     (agents stale_agent) = [(1, Running, ''a.py'', 3), (2, Running, ''a.py'', 6)]"
    by code_simp
  have len: "length (lines a_py) = 6"
    by (simp add: a_py_def)
  have stale: "\<not> (\<forall>a \<in> set (map snd (agents stale_agent)).
      agent_textDocument a = uri a_py \<longrightarrow> line (startPosition a) < length (lines a_py))"
    by code_simp
  have raised: "provideCodeLenses stale_agent a_py = Inl (Err ''Illegal value for `line`'')"
    using provideCodeLenses_actions [of stale_agent a_py, THEN conjunct1]
    by (simp only: if_not_P [OF stale])
  have only: "filter (\<lambda>b. line (startPosition b) = 3) (map snd (agents started)) = [session_1]"
    by code_simp
  have one: "filter (\<lambda>l. line (start (lens_range l)) = 3)
        (concat (map (lenses_in a_py) (map snd (agents started)))) = lenses_in a_py session_1"
    using provideCodeLenses_actions [of started a_py session_1 3] only by blast
  have cancel: "map lens_action (lenses_in a_py session_1)
     = [(''rift.cancel'', [1], RangeOf (Position 3 0) (Position 3 12))]"
    by code_simp
  have single: "map lens_action
     (filter (\<lambda>l. line (start (lens_range l)) = 3)
        (concat (map (lenses_in a_py) (map snd (agents started)))))
     = [(''rift.cancel'', [1], RangeOf (Position 3 0) (Position 3 12))]"
    by (simp only: one cancel)
  from reg first reg' len raised only single show ?thesis
    by (intro conjI)
qed

text \<open>
  C8 as stated fails, in two ways. With two running agents anchored on line 3 of the
  document, that line gets two cancel actions. With agent 1 running on line 3 and
  agent 2 anchored on line 6 of the six-line document, the call raises, and line 3 gets
  no action.
\<close>

theorem lens_actions_counterexample:
  "map (\<lambda>(k, a). (k, agent_status a, agent_textDocument a, line (startPosition a))) (agents two_agents)
     = [(1, Running, ''a.py'', 3), (2, Running, ''a.py'', 3)] \<and>
   (case provideCodeLenses two_agents a_py of
      Inr items \<Rightarrow> map (\<lambda>l. (command (lens_command l), line (start (lens_range l)))) items
    | Inl e \<Rightarrow> [])
     = [(''rift.cancel'', 3), (''rift.cancel'', 3)] \<and>
   map (\<lambda>(k, a). (k, agent_status a, agent_textDocument a, line (startPosition a))) (agents stale_agent)
     = [(1, Running, ''a.py'', 3), (2, Running, ''a.py'', 6)] \<and>
   length (lines a_py) = 6 \<and>
   provideCodeLenses stale_agent a_py = Inl (Err ''Illegal value for `line`'')"
  by code_simp

end
